theory Spec2Isabelle
  imports
    Complex_Main
    "HOL-Library.Word"
    "HOL-Library.Char_ord"
    "HOL-Library.List_Lexorder"
begin

section \<open>Home energy efficiency analyzer: the canister of \<open>src/index.ts\<close>\<close>

subsection \<open>Data model\<close>

text \<open>
  \<open>nat64\<close> is Candid's unsigned 64-bit integer. \<open>number\<close> is an IEEE-754 double in the
  source. A field of type \<open>number\<close> holds the real number that the double denotes, so a
  NaN (for which every comparison of the source is false) and the infinities have no
  counterpart as field values; apart from \<open>consumption\<close> the fields are only compared.
  The one arithmetic operation of the source, the addition in
  \<open>calculateTotalConsumption\<close>, is modelled with its rounding below. A \<open>Principal\<close> is an opaque identity; it is kept as its
  textual form.
\<close>

type_synonym nat64 = "64 word"
type_synonym number = real

datatype Principal = Principal string

record EnergyUsageData =
  date :: nat64
  consumption :: number

text \<open>
  The four fields of \<open>EnergyAssessmentPayload\<close> occur under the same names in
  \<open>EnergyAssessment\<close>; the assessment is therefore declared as an extension of the
  payload record, which lets both use the field names of the source. The field \<open>id\<close>
  of the source is written \<open>id'\<close>.
\<close>

record EnergyAssessmentPayload =
  address :: string
  efficiencyRating :: number
  recommendations :: string
  costSavings :: number

record EnergyAssessment = EnergyAssessmentPayload +
  id' :: string
  homeOwner :: Principal
  assessmentDate :: nat64
  createdAt :: nat64
  updatedAt :: "nat64 option"
  energyUsageHistory :: "EnergyUsageData list"

text \<open>\<open>Result<T, string>\<close> of azle: a success value or an error message.\<close>

datatype 'a Result = Ok 'a | Err string

subsection \<open>Addition of doubles\<close>

text \<open>
  The result of an addition of finite doubles is the exact sum rounded to the nearest
  double, ties to the double with an even significand, and an infinity when the rounded
  value is beyond the largest double. A double has a significand of 53 bits and an
  exponent from \<open>- 1022\<close> to \<open>1023\<close>; below \<open>2 ^ - 1022\<close> the doubles are the multiples
  of \<open>2 ^ - 1074\<close>.
\<close>

datatype float64 = Finite real | PosInfinity | NegInfinity | NaN

text \<open>
  The binade of \<open>a > 0\<close> is the exponent \<open>e\<close> with \<open>2 ^ e \<le> a < 2 ^ (e + 1)\<close>, found by
  halving or doubling, and not taken below \<open>- 1022\<close> nor above \<open>1024\<close>.
\<close>

fun binade_up :: "nat \<Rightarrow> real \<Rightarrow> int" where
  "binade_up 0 a = 0"
| "binade_up (Suc n) a = (if a < 2 then 0 else binade_up n (a / 2) + 1)"

fun binade_down :: "nat \<Rightarrow> real \<Rightarrow> int" where
  "binade_down 0 a = 0"
| "binade_down (Suc n) a = (if 1 \<le> a then 0 else binade_down n (2 * a) - 1)"

definition binade :: "real \<Rightarrow> int" where
  "binade a = (if 1 \<le> a then binade_up 1024 a else binade_down 1022 a)"

definition round_ties_even :: "real \<Rightarrow> int" where
  "round_ties_even x =
     (let f = \<lfloor>x\<rfloor>; d = x - of_int f
      in if d < 1 / 2 then f
         else if 1 / 2 < d then f + 1
         else if even f then f else f + 1)"

text \<open>
  Rounding a real to a double: \<open>q\<close> is the distance of neighbouring doubles in the
  binade of \<open>x\<close>, and \<open>x\<close> is rounded to a multiple of \<open>q\<close>.
\<close>

definition round_double :: "real \<Rightarrow> float64" where
  "round_double x =
     (let q = 2 powi (binade \<bar>x\<bar> - 52);
          r = of_int (round_ties_even (x / q)) * q
      in if 2 powi 1024 \<le> r then PosInfinity
         else if r \<le> - (2 powi 1024) then NegInfinity
         else Finite r)"

text \<open>The addition \<open>+\<close> of two doubles.\<close>

fun float64_add :: "float64 \<Rightarrow> float64 \<Rightarrow> float64" where
  "float64_add (Finite x) (Finite y) = round_double (x + y)"
| "float64_add NaN y = NaN"
| "float64_add x NaN = NaN"
| "float64_add PosInfinity NegInfinity = NaN"
| "float64_add NegInfinity PosInfinity = NaN"
| "float64_add PosInfinity y = PosInfinity"
| "float64_add x PosInfinity = PosInfinity"
| "float64_add NegInfinity y = NegInfinity"
| "float64_add x NegInfinity = NegInfinity"

text \<open>
  \<open>total + data.consumption\<close> of the source. The field value \<open>c\<close> stands for the double
  \<open>round_double c\<close>, which is \<open>c\<close> itself when \<open>c\<close> is a double.
\<close>

definition double_add :: "float64 \<Rightarrow> number \<Rightarrow> float64" where
  "double_add t c = float64_add t (round_double c)"

subsection \<open>What a call receives from its host\<close>

text \<open>
  One call of a canister method sees: \<open>ic.time()\<close>, which is constant during the
  execution of one message, \<open>ic.caller()\<close>, the string that \<open>uuidv4()\<close> returns in this
  call, and whether \<open>StableBTreeMap.insert\<close> throws for a given key and value (the map
  was created with a maximal key size of 44 and a maximal value size of 1024 bytes);
  \<open>insert_throws h k v = Some e\<close> says that it throws, \<open>e\<close> being the text of the
  thrown value.
\<close>

record host =
  ic_time :: nat64
  ic_caller :: Principal
  uuidv4 :: string
  insert_throws :: "string \<Rightarrow> EnergyAssessment \<Rightarrow> string option"

subsection \<open>The stable map \<open>energyAssessmentStorage\<close>\<close>

text \<open>
  \<open>StableBTreeMap\<close> is library code of azle and is not part of the sources; the five
  operations that the canister uses are modelled from the record store of the
  specification, an ordered mapping from identifier to record. The mapping is kept as
  the list of its key-value pairs in ascending key order.
\<close>

type_synonym StableBTreeMap = "(string \<times> EnergyAssessment) list"

text \<open>
  Modelled from the spec: \<open>get\<close> of the azle map, which is missing from the sources.
  It is a point lookup; an absent key yields the empty result, never an error.
\<close>

definition storage_get :: "StableBTreeMap \<Rightarrow> string \<Rightarrow> EnergyAssessment option" where
  "storage_get s k = map_of s k"

text \<open>
  Modelled from the spec: the write of \<open>insert\<close> of the azle map, which is missing from
  the sources. It inserts the pair if the key is absent and otherwise replaces the whole
  value under the key.
\<close>

fun storage_put :: "string \<Rightarrow> EnergyAssessment \<Rightarrow> StableBTreeMap \<Rightarrow> StableBTreeMap" where
  "storage_put k v [] = [(k, v)]"
| "storage_put k v (e # s) =
     (if fst e = k then (k, v) # s
      else if k < fst e then (k, v) # e # s
      else e # storage_put k v s)"

text \<open>
  Modelled from the spec: \<open>insert\<close> of the azle map, which is missing from the sources.
  A write may fail for capacity or serialization reasons, and then nothing is written;
  the failure is what the \<open>try\<close> blocks of the canister catch.
\<close>

definition storage_insert ::
  "host \<Rightarrow> string \<Rightarrow> EnergyAssessment \<Rightarrow> StableBTreeMap \<Rightarrow> string + StableBTreeMap" where
  "storage_insert h k v s =
     (case insert_throws h k v of
        Some thrown \<Rightarrow> Inl thrown
      | None \<Rightarrow> Inr (storage_put k v s))"

text \<open>
  Modelled from the spec: \<open>remove\<close> of the azle map, which is missing from the sources.
  It removes the key, and does nothing if the key is absent.
\<close>

definition storage_remove :: "string \<Rightarrow> StableBTreeMap \<Rightarrow> StableBTreeMap" where
  "storage_remove k s = filter (\<lambda>e. fst e \<noteq> k) s"

text \<open>
  Modelled from the spec: \<open>values\<close> of the azle map, which is missing from the sources.
  It lists all records in the key order of the store.
\<close>

definition storage_values :: "StableBTreeMap \<Rightarrow> EnergyAssessment list" where
  "storage_values s = map snd s"

text \<open>The keys of a store are strictly ascending.\<close>

definition key_order :: "StableBTreeMap \<Rightarrow> bool" where
  "key_order s = sorted_wrt (<) (map fst s)"

text \<open>Every record is stored under its own \<open>id\<close>.\<close>

definition keyed_by_id :: "StableBTreeMap \<Rightarrow> bool" where
  "keyed_by_id s = list_all (\<lambda>e. id' (snd e) = fst e) s"

subsection \<open>The canister methods\<close>

text \<open>
  A method that may write takes the store and returns its result together with the store
  it leaves. \<open>!s\<close> on a string of the source is the test for the empty string, and
  \<open>s || ""\<close> replaces the empty string by the empty string.
\<close>

definition not_found :: "string \<Rightarrow> string" where
  "not_found aid = ''Energy Assessment with ID='' @ aid @ '' not found.''"

definition createEnergyAssessment ::
  "host \<Rightarrow> EnergyAssessmentPayload \<Rightarrow> StableBTreeMap
    \<Rightarrow> EnergyAssessment Result \<times> StableBTreeMap" where
  "createEnergyAssessment h payload s =
     (if address payload = [] \<or> efficiencyRating payload \<le> 0 \<or> costSavings payload \<le> 0
      then (Err ''Missing or invalid fields in the payload.'', s)
      else
        let assessment =
          \<lparr> address = address payload,
            efficiencyRating = efficiencyRating payload,
            recommendations =
              (if recommendations payload = [] then [] else recommendations payload),
            costSavings = costSavings payload,
            id' = uuidv4 h,
            homeOwner = ic_caller h,
            assessmentDate = ic_time h,
            createdAt = ic_time h,
            updatedAt = None,
            energyUsageHistory = [] \<rparr>
        in case storage_insert h (id' assessment) assessment s of
             Inl thrown \<Rightarrow> (Err (''Failed to create the energy assessment: '' @ thrown), s)
           | Inr s' \<Rightarrow> (Ok assessment, s'))"

definition getEnergyAssessment :: "string \<Rightarrow> StableBTreeMap \<Rightarrow> EnergyAssessment Result" where
  "getEnergyAssessment aid s =
     (if aid = [] then Err ''Invalid ID format.''
      else case storage_get s aid of
             Some assessment \<Rightarrow> Ok assessment
           | None \<Rightarrow> Err (not_found aid))"

definition getAllEnergyAssessments :: "StableBTreeMap \<Rightarrow> EnergyAssessment list Result" where
  "getAllEnergyAssessments s = Ok (storage_values s)"

definition updateEnergyAssessment ::
  "host \<Rightarrow> string \<Rightarrow> EnergyAssessmentPayload \<Rightarrow> StableBTreeMap
    \<Rightarrow> EnergyAssessment Result \<times> StableBTreeMap" where
  "updateEnergyAssessment h aid payload s =
     (if aid = [] then (Err ''ID is required.'', s)
      else case storage_get s aid of
             Some existingAssessment \<Rightarrow>
               let updatedAssessment = existingAssessment
                     \<lparr> address := address payload,
                       efficiencyRating := efficiencyRating payload,
                       recommendations := recommendations payload,
                       costSavings := costSavings payload,
                       updatedAt := Some (ic_time h) \<rparr>
               in (case storage_insert h (id' updatedAssessment) updatedAssessment s of
                     Inl thrown \<Rightarrow>
                       (Err (''Failed to update the energy assessment: '' @ thrown), s)
                   | Inr s' \<Rightarrow> (Ok updatedAssessment, s'))
           | None \<Rightarrow> (Err (not_found aid), s))"

definition deleteEnergyAssessment ::
  "string \<Rightarrow> StableBTreeMap \<Rightarrow> EnergyAssessment Result \<times> StableBTreeMap" where
  "deleteEnergyAssessment aid s =
     (if aid = [] then (Err ''ID is required.'', s)
      else case storage_get s aid of
             Some existingAssessment \<Rightarrow> (Ok existingAssessment, storage_remove aid s)
           | None \<Rightarrow> (Err (not_found aid), s))"

text \<open>
  \<open>addEnergyUsage\<close> does not catch what \<open>insert\<close> throws: the call then ends without a
  result (\<open>Inl\<close> with the thrown text) and the store is as before the call.
\<close>

definition addEnergyUsage ::
  "host \<Rightarrow> string \<Rightarrow> nat64 \<Rightarrow> number \<Rightarrow> StableBTreeMap
    \<Rightarrow> string + EnergyAssessment Result \<times> StableBTreeMap" where
  "addEnergyUsage h aid d c s =
     (if aid = [] then Inr (Err ''ID is required.'', s)
      else case storage_get s aid of
             Some assessment \<Rightarrow>
               let pushed = assessment
                     \<lparr> energyUsageHistory :=
                         energyUsageHistory assessment @ [\<lparr> date = d, consumption = c \<rparr>] \<rparr>
               in (case storage_insert h aid pushed s of
                     Inl thrown \<Rightarrow> Inl thrown
                   | Inr s' \<Rightarrow> Inr (Ok pushed, s'))
           | None \<Rightarrow> Inr (Err (not_found aid), s))"

definition getEnergyUsageHistory :: "string \<Rightarrow> StableBTreeMap \<Rightarrow> EnergyUsageData list Result" where
  "getEnergyUsageHistory aid s =
     (if aid = [] then Err ''Invalid ID format.''
      else case storage_get s aid of
             Some assessment \<Rightarrow> Ok (energyUsageHistory assessment)
           | None \<Rightarrow> Err (not_found aid))"

definition calculateTotalConsumption :: "string \<Rightarrow> StableBTreeMap \<Rightarrow> float64 Result" where
  "calculateTotalConsumption aid s =
     (if aid = [] then Err ''Invalid ID format.''
      else case storage_get s aid of
             Some assessment \<Rightarrow>
               Ok (foldl (\<lambda>total data. double_add total (consumption data)) (Finite 0)
                     (energyUsageHistory assessment))
           | None \<Rightarrow> Err (not_found aid))"

definition getHighEfficiencyAssessments ::
  "number \<Rightarrow> StableBTreeMap \<Rightarrow> EnergyAssessment list Result" where
  "getHighEfficiencyAssessments threshold s =
     (if threshold \<le> 0
      then Err ''Invalid threshold value. Threshold must be greater than 0.''
      else Ok (filter (\<lambda>assessment. efficiencyRating assessment \<ge> threshold)
                 (storage_values s)))"

subsection \<open>Notions used by the statements\<close>

text \<open>
  The record of a creation in the words of the specification: a fresh id, \<open>createdAt\<close>
  and \<open>assessmentDate\<close> stamped with the time of the call, no \<open>updatedAt\<close>, the caller
  as owner, an empty usage history, and the validated fields copied.
\<close>

definition creation_policy :: "host \<Rightarrow> EnergyAssessmentPayload \<Rightarrow> EnergyAssessment" where
  "creation_policy h payload =
     \<lparr> address = address payload,
       efficiencyRating = efficiencyRating payload,
       recommendations = recommendations payload,
       costSavings = costSavings payload,
       id' = uuidv4 h,
       homeOwner = ic_caller h,
       assessmentDate = ic_time h,
       createdAt = ic_time h,
       updatedAt = None,
       energyUsageHistory = [] \<rparr>"

text \<open>
  No addition rounds when the values \<open>cs\<close> are added to the total \<open>t\<close> one after the
  other: every value and every exact partial sum is a double.
\<close>

fun no_rounding :: "real \<Rightarrow> number list \<Rightarrow> bool" where
  "no_rounding t [] = True"
| "no_rounding t (c # cs) =
     (round_double c = Finite c \<and> round_double (t + c) = Finite (t + c)
      \<and> no_rounding (t + c) cs)"

text \<open>
  The merge policy in the words of the specification: start from the existing record,
  overwrite the four payload fields, leave every other field, stamp \<open>updatedAt\<close>.
\<close>

definition merge_policy ::
  "EnergyAssessment \<Rightarrow> EnergyAssessmentPayload \<Rightarrow> nat64 \<Rightarrow> EnergyAssessment" where
  "merge_policy existing payload now =
     \<lparr> address = address payload,
       efficiencyRating = efficiencyRating payload,
       recommendations = recommendations payload,
       costSavings = costSavings payload,
       id' = id' existing,
       homeOwner = homeOwner existing,
       assessmentDate = assessmentDate existing,
       createdAt = createdAt existing,
       updatedAt = Some now,
       energyUsageHistory = energyUsageHistory existing \<rparr>"

text \<open>
  The host clock does not run backwards: at a call made at time \<open>t\<close>, every time stamp
  in the store was taken at a time not after \<open>t\<close>.
\<close>

definition stamped_until :: "nat64 \<Rightarrow> EnergyAssessment \<Rightarrow> bool" where
  "stamped_until t a =
     (createdAt a \<le> t \<and> (case updatedAt a of None \<Rightarrow> True | Some u \<Rightarrow> u \<le> t))"

definition stamps_until :: "nat64 \<Rightarrow> StableBTreeMap \<Rightarrow> bool" where
  "stamps_until t s = list_all (\<lambda>e. stamped_until t (snd e)) s"

text \<open>
  A sequence of \<open>addEnergyUsage\<close> calls on one id, each with its own host, date and
  consumption; the value is the store after the last call when every call returned
  \<open>Result.Ok\<close>, and \<open>None\<close> otherwise.
\<close>

fun addEnergyUsage_calls ::
  "string \<Rightarrow> (host \<times> nat64 \<times> number) list \<Rightarrow> StableBTreeMap \<Rightarrow> StableBTreeMap option" where
  "addEnergyUsage_calls aid [] s = Some s"
| "addEnergyUsage_calls aid (call # calls) s =
     (case addEnergyUsage (fst call) aid (fst (snd call)) (snd (snd call)) s of
        Inr (Ok pushed, s') \<Rightarrow> addEnergyUsage_calls aid calls s'
      | Inr (Err e, s') \<Rightarrow> None
      | Inl thrown \<Rightarrow> None)"

definition reading :: "host \<times> nat64 \<times> number \<Rightarrow> EnergyUsageData" where
  "reading call = \<lparr> date = fst (snd call), consumption = snd (snd call) \<rparr>"

text \<open>
  Runs of the canister: a list of calls of the writing methods, each with the host it
  sees. The store after a call that ends without a result is the store before it.
\<close>

datatype call =
    Create EnergyAssessmentPayload
  | Update string EnergyAssessmentPayload
  | Delete string
  | AddUsage string nat64 number

fun perform :: "host \<Rightarrow> call \<Rightarrow> StableBTreeMap \<Rightarrow> StableBTreeMap" where
  "perform h (Create payload) s = snd (createEnergyAssessment h payload s)"
| "perform h (Update aid payload) s = snd (updateEnergyAssessment h aid payload s)"
| "perform h (Delete aid) s = snd (deleteEnergyAssessment aid s)"
| "perform h (AddUsage aid d c) s =
     (case addEnergyUsage h aid d c s of Inl thrown \<Rightarrow> s | Inr ret \<Rightarrow> snd ret)"

fun run :: "(host \<times> call) list \<Rightarrow> StableBTreeMap \<Rightarrow> StableBTreeMap" where
  "run [] s = s"
| "run (hc # hcs) s = run hcs (perform (fst hc) (snd hc) s)"

text \<open>The clock of the host does not run backwards along a run that starts at time \<open>t\<close>.\<close>

fun clock_ascends :: "nat64 \<Rightarrow> (host \<times> call) list \<Rightarrow> bool" where
  "clock_ascends t [] = True"
| "clock_ascends t (hc # hcs) = (t \<le> ic_time (fst hc) \<and> clock_ascends (ic_time (fst hc)) hcs)"

fun last_time :: "nat64 \<Rightarrow> (host \<times> call) list \<Rightarrow> nat64" where
  "last_time t [] = t"
| "last_time t (hc # hcs) = last_time (ic_time (fst hc)) hcs"

subsection \<open>Sample values\<close>

definition uuid0 :: string where
  "uuid0 = ''9b1deb4d-3b7d-4bad-9bdd-2b0d7b3dcb6d''"

definition uuid1 :: string where
  "uuid1 = ''c56a4180-65aa-42ec-a945-5fd21dec0538''"

definition host0 :: host where
  "host0 = \<lparr> ic_time = 100, ic_caller = Principal ''2vxsx-fae'', uuidv4 = uuid0,
             insert_throws = (\<lambda>k v. None) \<rparr>"

definition host1 :: host where
  "host1 = \<lparr> ic_time = 250, ic_caller = Principal ''2vxsx-fae'', uuidv4 = uuid1,
             insert_throws = (\<lambda>k v. None) \<rparr>"

text \<open>A size bound of the store, as a sample of a store that refuses some writes.\<close>

definition capacity :: "string \<Rightarrow> EnergyAssessment \<Rightarrow> string option" where
  "capacity k v =
     (if 44 < length k \<or> 64 < length (address v) + length (recommendations v)
      then Some ''ValueTooLarge'' else None)"

definition host_cap0 :: host where
  "host_cap0 = \<lparr> ic_time = 100, ic_caller = Principal ''2vxsx-fae'', uuidv4 = uuid0,
                 insert_throws = capacity \<rparr>"

definition host_cap1 :: host where
  "host_cap1 = \<lparr> ic_time = 250, ic_caller = Principal ''2vxsx-fae'', uuidv4 = uuid1,
                 insert_throws = capacity \<rparr>"

definition payload0 :: EnergyAssessmentPayload where
  "payload0 = \<lparr> address = ''1 Main St'', efficiencyRating = 5,
                recommendations = ''seal windows'', costSavings = 200 \<rparr>"

definition payload1 :: EnergyAssessmentPayload where
  "payload1 = \<lparr> address = ''2 Main St'', efficiencyRating = 9,
                recommendations = [], costSavings = 300 \<rparr>"

definition payload_bad :: EnergyAssessmentPayload where
  "payload_bad = \<lparr> address = [], efficiencyRating = 0,
                   recommendations = [], costSavings = - 1 \<rparr>"

definition assessment0 :: EnergyAssessment where
  "assessment0 =
     \<lparr> address = ''1 Main St'', efficiencyRating = 5,
       recommendations = ''seal windows'', costSavings = 200,
       id' = uuid0, homeOwner = Principal ''2vxsx-fae'',
       assessmentDate = 100, createdAt = 100, updatedAt = None,
       energyUsageHistory = [] \<rparr>"

definition assessment1 :: EnergyAssessment where
  "assessment1 =
     \<lparr> address = ''2 Main St'', efficiencyRating = 9,
       recommendations = [], costSavings = 300,
       id' = uuid1, homeOwner = Principal ''2vxsx-fae'',
       assessmentDate = 250, createdAt = 250, updatedAt = None,
       energyUsageHistory =
         [\<lparr> date = 100, consumption = 30 \<rparr>, \<lparr> date = 200, consumption = 10 \<rparr>] \<rparr>"

definition updated0 :: EnergyAssessment where
  "updated0 =
     \<lparr> address = ''2 Main St'', efficiencyRating = 9,
       recommendations = [], costSavings = 300,
       id' = uuid0, homeOwner = Principal ''2vxsx-fae'',
       assessmentDate = 100, createdAt = 100, updatedAt = Some 250,
       energyUsageHistory = [] \<rparr>"

definition assessment_big :: EnergyAssessment where
  "assessment_big =
     \<lparr> address = ''1 Main St'', efficiencyRating = 5,
       recommendations = ''seal windows'', costSavings = 200,
       id' = uuid0, homeOwner = Principal ''2vxsx-fae'',
       assessmentDate = 100, createdAt = 100, updatedAt = None,
       energyUsageHistory =
         [\<lparr> date = 100, consumption = 9007199254740992 \<rparr>, \<lparr> date = 200, consumption = 1 \<rparr>] \<rparr>"

definition store_big :: StableBTreeMap where
  "store_big = [(uuid0, assessment_big)]"

definition calls_big :: "(host \<times> nat64 \<times> number) list" where
  "calls_big = [(host1, 100, 9007199254740992), (host1, 200, 1)]"

definition calls0 :: "(host \<times> nat64 \<times> number) list" where
  "calls0 = [(host1, 100, 30), (host1, 200, 10)]"

definition store0 :: StableBTreeMap where
  "store0 = [(uuid0, assessment0)]"

definition store1 :: StableBTreeMap where
  "store1 = [(uuid0, assessment0), (uuid1, assessment1)]"

subsection \<open>The store: lookup after a write, and the two invariants\<close>

lemma storage_get_put:
  "storage_get (storage_put k v s) k' = (if k' = k then Some v else storage_get s k')"
  by (induction s) (auto simp: storage_get_def)

lemma storage_get_remove:
  "storage_get (storage_remove k s) k' = (if k' = k then None else storage_get s k')"
  by (induction s) (auto simp: storage_get_def storage_remove_def)

lemma keys_storage_put: "fst ` set (storage_put k v s) = insert k (fst ` set s)"
  by (induction s) auto

lemma key_order_put: "key_order s \<Longrightarrow> key_order (storage_put k v s)"
proof (induction s)
  case Nil
  then show ?case by (simp add: key_order_def)
next
  case (Cons e s)
  have "\<forall>x \<in> fst ` set (storage_put k v s). fst e < x" if "\<not> k < fst e" "fst e \<noteq> k"
    using that Cons.prems by (auto simp: keys_storage_put key_order_def)
  with Cons show ?case
    by (auto simp: key_order_def)
qed

lemma key_order_remove: "key_order s \<Longrightarrow> key_order (storage_remove k s)"
  by (induction s) (auto simp: key_order_def storage_remove_def)

lemma keyed_by_id_put:
  "id' v = k \<Longrightarrow> keyed_by_id s \<Longrightarrow> keyed_by_id (storage_put k v s)"
  by (induction s) (auto simp: keyed_by_id_def)

lemma keyed_by_id_remove: "keyed_by_id s \<Longrightarrow> keyed_by_id (storage_remove k s)"
  by (simp add: keyed_by_id_def storage_remove_def list_all_iff)

lemma keyed_by_id_get: "keyed_by_id s \<Longrightarrow> storage_get s k = Some a \<Longrightarrow> id' a = k"
  by (auto simp: keyed_by_id_def storage_get_def list_all_iff dest!: map_of_SomeD)

text \<open>With ascending keys, \<open>values\<close> lists exactly the records that \<open>get\<close> finds.\<close>

lemma storage_values_get:
  assumes "key_order s"
  shows "a \<in> set (storage_values s) \<longleftrightarrow> (\<exists>k. storage_get s k = Some a)"
proof -
  from assms have "distinct (map fst s)"
    by (simp add: key_order_def strict_sorted_iff)
  then show ?thesis
    by (force simp: storage_values_def storage_get_def dest: map_of_SomeD)
qed

lemma stamped_until_mono: "t \<le> t' \<Longrightarrow> stamped_until t a \<Longrightarrow> stamped_until t' a"
  by (auto simp: stamped_until_def split: option.splits)

lemma stamps_until_mono: "t \<le> t' \<Longrightarrow> stamps_until t s \<Longrightarrow> stamps_until t' s"
  by (auto simp: stamps_until_def list_all_iff intro: stamped_until_mono)

lemma stamps_until_get:
  "stamps_until t s \<Longrightarrow> storage_get s k = Some a \<Longrightarrow> stamped_until t a"
  by (auto simp: stamps_until_def storage_get_def list_all_iff dest!: map_of_SomeD)

lemma stamps_until_put:
  "stamped_until t v \<Longrightarrow> stamps_until t s \<Longrightarrow> stamps_until t (storage_put k v s)"
  by (induction s) (auto simp: stamps_until_def)

lemma stamps_until_remove: "stamps_until t s \<Longrightarrow> stamps_until t (storage_remove k s)"
  by (simp add: stamps_until_def storage_remove_def list_all_iff)

subsection \<open>Rounding to a double\<close>

lemma two_powi_succ: "(2::real) powi (k + 1) = 2 * 2 powi k"
  by (simp add: power_int_add_1')

lemma two_powi_pred: "(2::real) powi (k - 1) = 2 powi k / 2"
  by (simp add: power_int_diff)

lemma two_powi_neg_Suc: "(2::real) powi (- int (Suc n)) = 2 powi (- int n) / 2"
proof -
  have "- int (Suc n) = - int n - 1" by simp
  then show ?thesis by (simp only: two_powi_pred)
qed

lemma binade_up_bracket:
  "1 \<le> a \<Longrightarrow> a < 2 ^ Suc n \<Longrightarrow>
     2 powi (binade_up n a) \<le> a \<and> a < 2 powi (binade_up n a + 1)"
proof (induction n arbitrary: a)
  case 0
  then show ?case by simp
next
  case (Suc n)
  show ?case
  proof (cases "a < 2")
    case True
    with Suc.prems show ?thesis by simp
  next
    case False
    with Suc.prems have "1 \<le> a / 2" "a / 2 < 2 ^ Suc n"
      by simp_all
    from Suc.IH [OF this]
    have "2 * 2 powi (binade_up n (a / 2)) \<le> a"
      and "a < 2 * 2 powi (binade_up n (a / 2) + 1)"
      by simp_all
    then have "2 powi (binade_up n (a / 2) + 1) \<le> a"
      and "a < 2 powi (binade_up n (a / 2) + 1 + 1)"
      by (simp_all only: two_powi_succ)
    with False show ?thesis by simp
  qed
qed

lemma binade_down_bracket:
  "a < 1 \<Longrightarrow> 2 powi (- int n) \<le> a \<Longrightarrow>
     2 powi (binade_down n a) \<le> a \<and> a < 2 powi (binade_down n a + 1)"
proof (induction n arbitrary: a)
  case 0
  then show ?case by simp
next
  case (Suc n)
  have low: "2 powi (- int n) \<le> 2 * a"
    using Suc.prems(2) unfolding two_powi_neg_Suc by simp
  show ?case
  proof (cases "1 \<le> 2 * a")
    case True
    then have "binade_down n (2 * a) = 0"
      by (cases n) simp_all
    with Suc.prems(1) True show ?thesis
      by (simp add: power_int_minus)
  next
    case False
    with low Suc.IH [of "2 * a"]
    have "2 powi (binade_down n (2 * a)) / 2 \<le> a"
      and "a < 2 powi (binade_down n (2 * a) + 1) / 2"
      by simp_all
    then have "2 powi (binade_down n (2 * a) - 1) \<le> a"
      and "a < 2 powi (binade_down n (2 * a) + 1 - 1)"
      by (simp_all only: two_powi_pred)
    with Suc.prems(1) show ?thesis by simp
  qed
qed

lemma binade_down_clamp: "a < 2 powi (- int n) \<Longrightarrow> binade_down n a = - int n"
proof (induction n arbitrary: a)
  case 0
  then show ?case by simp
next
  case (Suc n)
  have half: "2 * a < 2 powi (- int n)"
    using Suc.prems unfolding two_powi_neg_Suc by simp
  have "(2::real) powi (- int n) \<le> 2 powi 0"
    by (intro power_int_increasing) simp_all
  with half have "\<not> 1 \<le> a" by simp
  with Suc.IH [OF half] show ?case
    by simp
qed

text \<open>The binade brackets every positive real below \<open>2 ^ 1025\<close> that is not subnormal.\<close>

lemma binade_bracket:
  assumes "2 powi (- 1022) \<le> a" and "a < 2 ^ 1025"
  shows "2 powi (binade a) \<le> a \<and> a < 2 powi (binade a + 1)"
proof (cases "1 \<le> a")
  case True
  with binade_up_bracket [of a 1024] assms(2) show ?thesis
    by (simp add: binade_def)
next
  case False
  with binade_down_bracket [of a 1022] assms(1) show ?thesis
    by (simp add: binade_def)
qed

lemma binade_subnormal: "a < 2 powi (- 1022) \<Longrightarrow> binade a = - 1022"
proof -
  assume small: "a < 2 powi (- 1022)"
  have "(2::real) powi (- 1022) \<le> 1"
    by (simp add: power_int_minus field_simps)
  with small have "\<not> 1 \<le> a" by simp
  with binade_down_clamp [of a 1022] small show ?thesis
    by (simp add: binade_def)
qed

lemma binade_eq:
  assumes "2 powi e \<le> a" and "a < 2 powi (e + 1)" and "- 1022 \<le> e" and "e \<le> 1024"
  shows "binade a = e"
proof -
  have lo: "2 powi (- 1022) \<le> a"
    using power_int_increasing [of "- 1022" e "2::real"] assms(1,3) by simp
  have "(2::real) powi (e + 1) \<le> 2 powi 1025"
    using assms(4) by (intro power_int_increasing) simp_all
  with assms(2) have hi: "a < 2 ^ 1025"
    by simp
  from binade_bracket [OF lo hi]
  have b: "2 powi (binade a) \<le> a" "a < 2 powi (binade a + 1)"
    by simp_all
  have "binade a < e + 1"
  proof (rule ccontr)
    assume "\<not> binade a < e + 1"
    then have "(2::real) powi (e + 1) \<le> 2 powi (binade a)"
      by (intro power_int_increasing) simp_all
    with b(1) assms(2) show False by simp
  qed
  moreover have "e < binade a + 1"
  proof (rule ccontr)
    assume "\<not> e < binade a + 1"
    then have "(2::real) powi (binade a + 1) \<le> 2 powi e"
      by (intro power_int_increasing) simp_all
    with b(2) assms(1) show False by simp
  qed
  ultimately show ?thesis by simp
qed

lemma round_ties_even_of_int: "round_ties_even (of_int k) = k"
  by (simp add: round_ties_even_def)

text \<open>A value \<open>m * 2 ^ e\<close> with \<open>|m| < 2 ^ 53\<close> and \<open>- 1074 \<le> e \<le> 971\<close> is a double: it does not round.\<close>

lemma round_double_exact:
  assumes "\<bar>m\<bar> < 2 ^ 53" and "- 1074 \<le> e" and "e \<le> 971"
  shows "round_double (of_int m * 2 powi e) = Finite (of_int m * 2 powi e)"
proof -
  define x :: real where "x = of_int m * 2 powi e"
  have absx: "\<bar>x\<bar> = of_int \<bar>m\<bar> * 2 powi e"
    by (simp add: x_def abs_mult)
  have "of_int \<bar>m\<bar> < (2::real) ^ 53"
    using assms(1) by (metis of_int_less_iff of_int_numeral of_int_power)
  then have "of_int \<bar>m\<bar> * 2 powi e < (2::real) ^ 53 * 2 powi e"
    by (simp add: zero_less_power_int)
  then have below: "\<bar>x\<bar> < 2 powi (e + 53)"
    by (simp add: absx power_int_add mult.commute)
  have "(2::real) powi (e + 53) \<le> 2 powi 1024"
    using assms(3) by (intro power_int_increasing) simp_all
  with below have fin: "\<bar>x\<bar> < 2 powi 1024"
    by simp
  have E: "binade \<bar>x\<bar> \<le> e + 52"
  proof (cases "\<bar>x\<bar> < 2 powi (- 1022)")
    case True
    with binade_subnormal [of "\<bar>x\<bar>"] assms(2) show ?thesis by simp
  next
    case False
    with fin have "2 powi (- 1022) \<le> \<bar>x\<bar>" "\<bar>x\<bar> < 2 ^ 1025"
      by simp_all
    from binade_bracket [OF this] have "2 powi (binade \<bar>x\<bar>) \<le> \<bar>x\<bar>"
      by simp
    with below have lt: "(2::real) powi (binade \<bar>x\<bar>) < 2 powi (e + 53)"
      by simp
    show ?thesis
    proof (rule ccontr)
      assume "\<not> binade \<bar>x\<bar> \<le> e + 52"
      then have "(2::real) powi (e + 53) \<le> 2 powi (binade \<bar>x\<bar>)"
        by (intro power_int_increasing) simp_all
      with lt show False by simp
    qed
  qed
  define q :: real where "q = 2 powi (binade \<bar>x\<bar> - 52)"
  define k :: nat where "k = nat (e + 52 - binade \<bar>x\<bar>)"
  have q: "0 < q"
    by (simp add: q_def zero_less_power_int)
  have "(2::real) powi e = 2 powi (int k + (binade \<bar>x\<bar> - 52))"
    using E by (simp add: k_def)
  also have "\<dots> = 2 ^ k * q"
    by (simp add: power_int_add q_def)
  finally have "x / q = of_int (m * 2 ^ k)"
    using q by (simp add: x_def)
  then have "of_int (round_ties_even (x / q)) * q = x"
    using q by (simp only: round_ties_even_of_int) (simp add: field_simps)
  with fin show ?thesis
    unfolding round_double_def x_def [symmetric] q_def [symmetric] Let_def
    by (simp add: abs_less_iff)
qed

text \<open>The sum \<open>2 ^ 53 + 1\<close> lies halfway between two doubles and rounds to \<open>2 ^ 53\<close>.\<close>

lemma round_double_tie: "round_double 9007199254740993 = Finite 9007199254740992"
proof -
  have "binade \<bar>9007199254740993\<bar> = 53"
    by (rule binade_eq) simp_all
  then show ?thesis
    by (simp add: round_double_def round_ties_even_def Let_def)
qed

lemma round_double_small:
  "round_double 0 = Finite 0"
  "round_double 1 = Finite 1"
  "round_double 10 = Finite 10"
  "round_double 30 = Finite 30"
  "round_double 40 = Finite 40"
  "round_double 9007199254740992 = Finite 9007199254740992"
  using round_double_exact [of 0 0] round_double_exact [of 1 0] round_double_exact [of 10 0]
    round_double_exact [of 30 0] round_double_exact [of 40 0] round_double_exact [of 1 53]
  by simp_all

text \<open>The decimal fractions 0.1 and 0.2 stand for doubles whose sum rounds upwards.\<close>

lemma round_double_tenth:
  "round_double (1 / 10) = Finite (3602879701896397 / 36028797018963968)"
proof -
  have "binade \<bar>1 / 10\<bar> = - 4"
    by (rule binade_eq) simp_all
  then show ?thesis
    by (simp add: round_double_def round_ties_even_def Let_def)
qed

lemma round_double_fifth:
  "round_double (1 / 5) = Finite (3602879701896397 / 18014398509481984)"
proof -
  have "binade \<bar>1 / 5\<bar> = - 3"
    by (rule binade_eq) simp_all
  then show ?thesis
    by (simp add: round_double_def round_ties_even_def Let_def)
qed

lemma tenth_plus_fifth:
  "foldl double_add (Finite 0) [1 / 10, 1 / 5] =
     Finite (1351079888211149 / 4503599627370496)"
proof -
  have "binade \<bar>3602879701896397 / 36028797018963968\<bar> = - 4"
    by (rule binade_eq) simp_all
  then have first: "round_double (3602879701896397 / 36028797018963968) =
      Finite (3602879701896397 / 36028797018963968)"
    by (simp add: round_double_def round_ties_even_def Let_def)
  have "binade \<bar>10808639105689191 / 36028797018963968\<bar> = - 2"
    by (rule binade_eq) simp_all
  then have second: "round_double (10808639105689191 / 36028797018963968) =
      Finite (1351079888211149 / 4503599627370496)"
    by (simp add: round_double_def round_ties_even_def Let_def)
  show ?thesis
    by (simp add: double_add_def round_double_tenth round_double_fifth first second)
qed

lemma foldl_double_add_exact:
  "no_rounding t cs \<Longrightarrow> foldl double_add (Finite t) cs = Finite (t + sum_list cs)"
  by (induction cs arbitrary: t) (simp_all add: double_add_def add.assoc)

subsection \<open>Every method keeps the invariants of the store\<close>

lemma create_keeps:
  assumes "createEnergyAssessment h payload s = (r, s')"
  shows "key_order s \<Longrightarrow> key_order s'"
    and "keyed_by_id s \<Longrightarrow> keyed_by_id s'"
    and "stamps_until t s \<Longrightarrow> t \<le> ic_time h \<Longrightarrow> stamps_until (ic_time h) s'"
  using assms
  by (auto simp: createEnergyAssessment_def storage_insert_def Let_def stamped_until_def
        intro!: key_order_put keyed_by_id_put stamps_until_put
        intro: stamps_until_mono
        split: if_splits option.splits)

lemma update_keeps:
  assumes "updateEnergyAssessment h aid payload s = (r, s')"
  shows "key_order s \<Longrightarrow> key_order s'"
    and "keyed_by_id s \<Longrightarrow> keyed_by_id s'"
    and "stamps_until t s \<Longrightarrow> t \<le> ic_time h \<Longrightarrow> stamps_until (ic_time h) s'"
proof -
  show "key_order s \<Longrightarrow> key_order s'"
    using assms
    by (auto simp: updateEnergyAssessment_def storage_insert_def Let_def
          intro!: key_order_put split: if_splits option.splits)
  show "keyed_by_id s \<Longrightarrow> keyed_by_id s'"
    using assms
    by (auto simp: updateEnergyAssessment_def storage_insert_def Let_def
          intro!: keyed_by_id_put split: if_splits option.splits)
  show "stamps_until (ic_time h) s'" if "stamps_until t s" "t \<le> ic_time h"
  proof -
    from that have now: "stamps_until (ic_time h) s"
      by (rule stamps_until_mono [rotated])
    have "stamped_until (ic_time h) (a\<lparr>address := x1, efficiencyRating := x2,
            recommendations := x3, costSavings := x4, updatedAt := Some (ic_time h)\<rparr>)"
      if "storage_get s aid = Some a" for a x1 x2 x3 x4
      using stamps_until_get [OF now that] by (simp add: stamped_until_def)
    with now assms show ?thesis
      by (auto simp: updateEnergyAssessment_def storage_insert_def Let_def
            intro!: stamps_until_put split: if_splits option.splits)
  qed
qed

lemma delete_keeps:
  assumes "deleteEnergyAssessment aid s = (r, s')"
  shows "key_order s \<Longrightarrow> key_order s'"
    and "keyed_by_id s \<Longrightarrow> keyed_by_id s'"
    and "stamps_until t s \<Longrightarrow> stamps_until t s'"
  using assms
  by (auto simp: deleteEnergyAssessment_def
        intro!: key_order_remove keyed_by_id_remove stamps_until_remove
        split: if_splits option.splits)

lemma add_keeps:
  assumes "addEnergyUsage h aid d c s = Inr (r, s')"
  shows "key_order s \<Longrightarrow> key_order s'"
    and "keyed_by_id s \<Longrightarrow> keyed_by_id s'"
    and "stamps_until t s \<Longrightarrow> stamps_until t s'"
proof -
  show "key_order s \<Longrightarrow> key_order s'"
    using assms
    by (auto simp: addEnergyUsage_def storage_insert_def Let_def
          intro!: key_order_put split: if_splits option.splits)
  show "keyed_by_id s \<Longrightarrow> keyed_by_id s'"
    using assms
    by (auto simp: addEnergyUsage_def storage_insert_def Let_def
          intro!: keyed_by_id_put dest: keyed_by_id_get split: if_splits option.splits)
  show "stamps_until t s'" if inv: "stamps_until t s"
  proof -
    have "stamped_until t (a\<lparr>energyUsageHistory := x\<rparr>)"
      if "storage_get s aid = Some a" for a x
      using stamps_until_get [OF inv that] by (simp add: stamped_until_def)
    with inv assms show ?thesis
      by (auto simp: addEnergyUsage_def storage_insert_def Let_def
            intro!: stamps_until_put split: if_splits option.splits)
  qed
qed

lemma perform_keeps:
  shows "key_order s \<Longrightarrow> key_order (perform h c s)"
    and "keyed_by_id s \<Longrightarrow> keyed_by_id (perform h c s)"
    and "stamps_until t s \<Longrightarrow> t \<le> ic_time h \<Longrightarrow> stamps_until (ic_time h) (perform h c s)"
proof -
  show "key_order s \<Longrightarrow> key_order (perform h c s)"
    by (cases c)
      (auto split: sum.splits
         intro: create_keeps(1) update_keeps(1) delete_keeps(1) add_keeps(1) prod.collapse [symmetric])
  show "keyed_by_id s \<Longrightarrow> keyed_by_id (perform h c s)"
    by (cases c)
      (auto split: sum.splits
         intro: create_keeps(2) update_keeps(2) delete_keeps(2) add_keeps(2) prod.collapse [symmetric])
  show "stamps_until (ic_time h) (perform h c s)" if "stamps_until t s" "t \<le> ic_time h"
  proof -
    from that have now: "stamps_until (ic_time h) s"
      by (rule stamps_until_mono [rotated])
    from that now show ?thesis
      by (cases c)
        (auto split: sum.splits
           intro: create_keeps(3) update_keeps(3) delete_keeps(3) add_keeps(3)
             prod.collapse [symmetric])
  qed
qed

text \<open>
  Every store that a run reaches from the empty store has ascending keys and holds every
  record under its own id; when the clock does not run backwards, no time stamp in it is
  later than the time of the last call.
\<close>

lemma run_keeps:
  shows "key_order s \<Longrightarrow> key_order (run hcs s)"
    and "keyed_by_id s \<Longrightarrow> keyed_by_id (run hcs s)"
    and "stamps_until t s \<Longrightarrow> clock_ascends t hcs \<Longrightarrow> stamps_until (last_time t hcs) (run hcs s)"
proof -
  show "key_order s \<Longrightarrow> key_order (run hcs s)"
    by (induction hcs arbitrary: s) (simp_all add: perform_keeps(1))
  show "keyed_by_id s \<Longrightarrow> keyed_by_id (run hcs s)"
    by (induction hcs arbitrary: s) (simp_all add: perform_keeps(2))
  show "stamps_until t s \<Longrightarrow> clock_ascends t hcs \<Longrightarrow> stamps_until (last_time t hcs) (run hcs s)"
    by (induction hcs arbitrary: s t) (simp_all add: perform_keeps(3))
qed

lemma empty_store:
  "key_order []" "keyed_by_id []" "stamps_until t []"
  by (simp_all add: key_order_def keyed_by_id_def stamps_until_def)

lemma reachable_store:
  "key_order (run hcs [])"
  "keyed_by_id (run hcs [])"
  "clock_ascends t hcs \<Longrightarrow> stamps_until (last_time t hcs) (run hcs [])"
  by (simp_all add: run_keeps empty_store)

subsection \<open>The sample values, evaluated\<close>

lemma create_payload0:
  "createEnergyAssessment host0 payload0 [] = (Ok assessment0, store0)"
  by (simp add: createEnergyAssessment_def host0_def payload0_def assessment0_def
        store0_def storage_insert_def Let_def)

lemma get_assessment0: "getEnergyAssessment uuid0 store0 = Ok assessment0"
  by (simp add: getEnergyAssessment_def storage_get_def store0_def uuid0_def)

lemma store0_keyed: "keyed_by_id store0"
  by (simp add: keyed_by_id_def store0_def assessment0_def)

lemma update_payload1:
  "updateEnergyAssessment host1 uuid0 payload1 store0 = (Ok updated0, [(uuid0, updated0)])"
  by (simp add: updateEnergyAssessment_def storage_get_def storage_insert_def Let_def
        store0_def host1_def payload1_def assessment0_def updated0_def uuid0_def)

lemma store0_stamps: "stamps_until (ic_time host1) store0"
  by (simp add: stamps_until_def stamped_until_def store0_def host1_def assessment0_def)

lemma store1_order: "key_order store1"
  by (simp add: key_order_def store1_def uuid0_def uuid1_def)

lemma get_assessment1: "getEnergyAssessment uuid1 store1 = Ok assessment1"
  by (simp add: getEnergyAssessment_def storage_get_def store1_def uuid0_def uuid1_def)

lemma add_reading0:
  "addEnergyUsage host1 uuid0 100 30 store0 =
     Inr (Ok (assessment0\<lparr>energyUsageHistory := [\<lparr>date = 100, consumption = 30\<rparr>]\<rparr>),
          [(uuid0, assessment0\<lparr>energyUsageHistory := [\<lparr>date = 100, consumption = 30\<rparr>]\<rparr>)])"
  by (simp add: addEnergyUsage_def storage_get_def storage_insert_def Let_def
        store0_def host1_def assessment0_def uuid0_def)

lemma add_calls0:
  "addEnergyUsage_calls uuid0 calls0 store0 =
     Some [(uuid0, assessment0\<lparr>energyUsageHistory :=
              [\<lparr>date = 100, consumption = 30\<rparr>, \<lparr>date = 200, consumption = 10\<rparr>]\<rparr>)]"
  by (simp add: calls0_def addEnergyUsage_def storage_get_def storage_insert_def Let_def
        store0_def host1_def assessment0_def uuid0_def)

text \<open>The sample size bound refuses a record with a long address.\<close>

lemma capacity_refuses:
  "capacity uuid0 (assessment0\<lparr>address := replicate 65 (CHR ''x'')\<rparr>) = Some ''ValueTooLarge''"
  by (simp add: capacity_def)

lemma create_payload0_cap:
  "createEnergyAssessment host_cap0 payload0 [] = (Ok assessment0, store0)"
  by (simp add: createEnergyAssessment_def host_cap0_def payload0_def assessment0_def
        store0_def storage_insert_def capacity_def uuid0_def Let_def)

lemma update_payload1_cap:
  "updateEnergyAssessment host_cap1 uuid0 payload1 store0 = (Ok updated0, [(uuid0, updated0)])"
  by (simp add: updateEnergyAssessment_def storage_get_def storage_insert_def Let_def
        store0_def host_cap1_def payload1_def assessment0_def updated0_def uuid0_def
        capacity_def)

lemma get_assessment_big: "getEnergyAssessment uuid0 store_big = Ok assessment_big"
  by (simp add: getEnergyAssessment_def storage_get_def store_big_def uuid0_def)

text \<open>The store with the two large readings is reached by two calls of \<open>addEnergyUsage\<close>.\<close>

lemma add_calls_big: "addEnergyUsage_calls uuid0 calls_big store0 = Some store_big"
  by (simp add: calls_big_def addEnergyUsage_def storage_get_def storage_insert_def Let_def
        store0_def store_big_def host1_def assessment0_def assessment_big_def uuid0_def)

subsection \<open>Creation\<close>

text \<open>
  C1. For a payload with a non-empty address, a positive efficiency rating and positive
  cost savings, whenever \<open>createEnergyAssessment\<close> returns a record, a following
  \<open>getEnergyAssessment\<close> with the id of that record returns the same record. The
  creation returns the record of the creation policy and stores it under its id when
  \<open>insert\<close> does not throw for this one record, and it returns the error of the failed
  write and leaves the store when \<open>insert\<close> throws for it. The identifier that
  \<open>uuidv4()\<close> returns is not the empty string.
\<close>

theorem create_then_get:
  assumes "address payload \<noteq> []"
    and "0 < efficiencyRating payload"
    and "0 < costSavings payload"
    and "uuidv4 h \<noteq> []"
  shows "(\<forall>created s'. createEnergyAssessment h payload s = (Ok created, s')
            \<longrightarrow> getEnergyAssessment (id' created) s' = Ok created)
       \<and> (insert_throws h (uuidv4 h) (creation_policy h payload) = None \<longrightarrow>
            createEnergyAssessment h payload s =
              (Ok (creation_policy h payload),
               storage_put (uuidv4 h) (creation_policy h payload) s)
          \<and> getEnergyAssessment (id' (creation_policy h payload))
               (storage_put (uuidv4 h) (creation_policy h payload) s) =
              Ok (creation_policy h payload))
       \<and> (\<forall>thrown. insert_throws h (uuidv4 h) (creation_policy h payload) = Some thrown \<longrightarrow>
            createEnergyAssessment h payload s =
              (Err (''Failed to create the energy assessment: '' @ thrown), s))"
proof -
  have cid: "id' (creation_policy h payload) = uuidv4 h"
    by (simp add: creation_policy_def)
  have crt: "createEnergyAssessment h payload s =
      (case insert_throws h (uuidv4 h) (creation_policy h payload) of
         Some thrown \<Rightarrow> (Err (''Failed to create the energy assessment: '' @ thrown), s)
       | None \<Rightarrow> (Ok (creation_policy h payload),
                   storage_put (uuidv4 h) (creation_policy h payload) s))"
    using assms(1-3)
    by (simp add: createEnergyAssessment_def storage_insert_def Let_def creation_policy_def
          split: option.splits)
  from assms(4) show ?thesis
    by (auto simp: crt cid getEnergyAssessment_def storage_get_put split: option.splits)
qed

theorem create_then_get_witness:
  "address payload0 \<noteq> [] \<and> 0 < efficiencyRating payload0 \<and> 0 < costSavings payload0
   \<and> uuidv4 host_cap0 \<noteq> []
   \<and> insert_throws host_cap0 (uuidv4 host_cap0) (creation_policy host_cap0 payload0) = None
   \<and> creation_policy host_cap0 payload0 = assessment0
   \<and> createEnergyAssessment host_cap0 payload0 [] = (Ok assessment0, store0)
   \<and> getEnergyAssessment (id' assessment0) store0 = Ok assessment0"
proof -
  have a: "address payload0 \<noteq> []"
    and r: "0 < efficiencyRating payload0"
    and c: "0 < costSavings payload0"
    by (simp_all add: payload0_def)
  have u: "uuidv4 host_cap0 \<noteq> []"
    by (simp add: host_cap0_def uuid0_def)
  have made: "creation_policy host_cap0 payload0 = assessment0"
    by (simp add: creation_policy_def host_cap0_def payload0_def assessment0_def)
  have fits: "insert_throws host_cap0 (uuidv4 host_cap0) (creation_policy host_cap0 payload0) = None"
    by (simp add: made) (simp add: host_cap0_def capacity_def assessment0_def uuid0_def)
  from create_then_get [OF a r c u, of "[]"] create_payload0_cap a r c u made fits
  show ?thesis by simp
qed

text \<open>
  C3. For a payload with an empty address, or an efficiency rating that is not positive,
  or cost savings that are not positive, \<open>createEnergyAssessment\<close> returns the error
  of the payload validation and leaves the store as it was.
\<close>

theorem create_rejects_invalid:
  assumes "address payload = [] \<or> efficiencyRating payload \<le> 0 \<or> costSavings payload \<le> 0"
  shows "createEnergyAssessment h payload s =
           (Err ''Missing or invalid fields in the payload.'', s)"
  using assms by (auto simp: createEnergyAssessment_def)

theorem create_rejects_invalid_witness:
  "(address payload_bad = [] \<or> efficiencyRating payload_bad \<le> 0 \<or> costSavings payload_bad \<le> 0)
   \<and> createEnergyAssessment host1 payload_bad store0 =
       (Err ''Missing or invalid fields in the payload.'', store0)"
proof -
  have bad: "address payload_bad = [] \<or> efficiencyRating payload_bad \<le> 0
               \<or> costSavings payload_bad \<le> 0"
    by (simp add: payload_bad_def)
  from create_rejects_invalid [OF bad, of host1 store0] bad
  show ?thesis by simp
qed

text \<open>
  C8. A record that \<open>createEnergyAssessment\<close> returns has \<open>createdAt\<close> equal to
  \<open>assessmentDate\<close>, both the time of the call, no \<open>updatedAt\<close>, the caller as
  \<open>homeOwner\<close> and an empty usage history.
\<close>

theorem created_record_fields:
  assumes "createEnergyAssessment h payload s = (Ok created, s')"
  shows "createdAt created = assessmentDate created
       \<and> createdAt created = ic_time h
       \<and> updatedAt created = None
       \<and> homeOwner created = ic_caller h
       \<and> energyUsageHistory created = []"
  using assms
  by (auto simp: createEnergyAssessment_def storage_insert_def Let_def
        split: if_splits option.splits)

theorem created_record_fields_witness:
  "createEnergyAssessment host0 payload0 [] = (Ok assessment0, store0)
   \<and> createdAt assessment0 = assessmentDate assessment0
   \<and> createdAt assessment0 = ic_time host0
   \<and> updatedAt assessment0 = None
   \<and> homeOwner assessment0 = ic_caller host0
   \<and> energyUsageHistory assessment0 = []"
  using created_record_fields [OF create_payload0] create_payload0 by blast

subsection \<open>Update\<close>

text \<open>
  C2. For an existing record, a record that \<open>updateEnergyAssessment\<close> returns is the one
  it stores under the id; its \<open>id\<close>, \<open>homeOwner\<close>, \<open>createdAt\<close> and
  \<open>energyUsageHistory\<close> are those of the prior record, its \<open>address\<close>,
  \<open>efficiencyRating\<close>, \<open>recommendations\<close> and \<open>costSavings\<close> are those of the
  payload, and its \<open>updatedAt\<close> is the time of the call, which is not before the prior
  \<open>createdAt\<close> and \<open>updatedAt\<close> when the clock of the host has not run backwards.
  The update returns and stores the merged record when \<open>insert\<close> does not throw for
  this one record.
\<close>

theorem update_merges:
  assumes "getEnergyAssessment aid s = Ok prior"
    and "keyed_by_id s"
  shows "(\<forall>updated s'. updateEnergyAssessment h aid payload s = (Ok updated, s') \<longrightarrow>
            getEnergyAssessment aid s' = Ok updated
          \<and> id' updated = id' prior
          \<and> homeOwner updated = homeOwner prior
          \<and> createdAt updated = createdAt prior
          \<and> energyUsageHistory updated = energyUsageHistory prior
          \<and> address updated = address payload
          \<and> efficiencyRating updated = efficiencyRating payload
          \<and> recommendations updated = recommendations payload
          \<and> costSavings updated = costSavings payload
          \<and> updatedAt updated = Some (ic_time h))
       \<and> (stamps_until (ic_time h) s \<longrightarrow>
            createdAt prior \<le> ic_time h
          \<and> (\<forall>u. updatedAt prior = Some u \<longrightarrow> u \<le> ic_time h))
       \<and> (insert_throws h aid (merge_policy prior payload (ic_time h)) = None \<longrightarrow>
            updateEnergyAssessment h aid payload s =
              (Ok (merge_policy prior payload (ic_time h)),
               storage_put aid (merge_policy prior payload (ic_time h)) s))"
proof -
  from assms(1) have aid: "aid \<noteq> []" and got: "storage_get s aid = Some prior"
    by (auto simp: getEnergyAssessment_def split: if_splits option.splits)
  from keyed_by_id_get [OF assms(2) got] have key: "id' prior = aid" .
  have merged: "prior\<lparr>address := address payload,
                  efficiencyRating := efficiencyRating payload,
                  recommendations := recommendations payload,
                  costSavings := costSavings payload,
                  updatedAt := Some (ic_time h)\<rparr> = merge_policy prior payload (ic_time h)"
    by (simp add: merge_policy_def)
  have fields: "id' (merge_policy prior payload (ic_time h)) = aid"
    "homeOwner (merge_policy prior payload (ic_time h)) = homeOwner prior"
    "createdAt (merge_policy prior payload (ic_time h)) = createdAt prior"
    "energyUsageHistory (merge_policy prior payload (ic_time h)) = energyUsageHistory prior"
    "address (merge_policy prior payload (ic_time h)) = address payload"
    "efficiencyRating (merge_policy prior payload (ic_time h)) = efficiencyRating payload"
    "recommendations (merge_policy prior payload (ic_time h)) = recommendations payload"
    "costSavings (merge_policy prior payload (ic_time h)) = costSavings payload"
    "updatedAt (merge_policy prior payload (ic_time h)) = Some (ic_time h)"
    by (simp_all add: merge_policy_def key)
  have stamps: "createdAt prior \<le> ic_time h \<and> (\<forall>u. updatedAt prior = Some u \<longrightarrow> u \<le> ic_time h)"
    if "stamps_until (ic_time h) s"
    using stamps_until_get [OF that got] by (auto simp: stamped_until_def)
  from aid got key stamps show ?thesis
    by (auto simp: updateEnergyAssessment_def getEnergyAssessment_def storage_insert_def
          storage_get_put Let_def merged fields split: option.splits)
qed

theorem update_merges_witness:
  "getEnergyAssessment uuid0 store0 = Ok assessment0
   \<and> keyed_by_id store0
   \<and> stamps_until (ic_time host_cap1) store0
   \<and> insert_throws host_cap1 uuid0 (merge_policy assessment0 payload1 (ic_time host_cap1)) = None
   \<and> merge_policy assessment0 payload1 (ic_time host_cap1) = updated0
   \<and> updateEnergyAssessment host_cap1 uuid0 payload1 store0 = (Ok updated0, [(uuid0, updated0)])
   \<and> getEnergyAssessment uuid0 [(uuid0, updated0)] = Ok updated0
   \<and> updatedAt updated0 = Some (ic_time host_cap1)
   \<and> createdAt assessment0 \<le> ic_time host_cap1"
proof -
  have made: "merge_policy assessment0 payload1 (ic_time host_cap1) = updated0"
    by (simp add: merge_policy_def assessment0_def payload1_def host_cap1_def updated0_def)
  have fits:
    "insert_throws host_cap1 uuid0 (merge_policy assessment0 payload1 (ic_time host_cap1)) = None"
    by (simp add: made) (simp add: host_cap1_def capacity_def updated0_def uuid0_def)
  have stamps: "stamps_until (ic_time host_cap1) store0"
    by (simp add: stamps_until_def stamped_until_def store0_def host_cap1_def assessment0_def)
  from update_merges [OF get_assessment0 store0_keyed, of host_cap1 payload1]
    get_assessment0 store0_keyed stamps update_payload1_cap made fits
  show ?thesis by blast
qed

text \<open>
  C9. \<open>updateEnergyAssessment\<close> does not validate the payload: for an existing record
  and any payload, the update never returns the error of the payload validation; when
  \<open>insert\<close> does not throw it returns and stores the merged record, and when \<open>insert\<close>
  throws it returns the error of the failed write and leaves the store.
\<close>

theorem update_does_not_validate:
  assumes "getEnergyAssessment aid s = Ok prior"
    and "keyed_by_id s"
  shows "(insert_throws h aid (merge_policy prior payload (ic_time h)) = None \<longrightarrow>
            updateEnergyAssessment h aid payload s =
              (Ok (merge_policy prior payload (ic_time h)),
               storage_put aid (merge_policy prior payload (ic_time h)) s)
          \<and> getEnergyAssessment aid
               (storage_put aid (merge_policy prior payload (ic_time h)) s) =
              Ok (merge_policy prior payload (ic_time h)))
       \<and> (\<forall>thrown. insert_throws h aid (merge_policy prior payload (ic_time h)) = Some thrown \<longrightarrow>
            updateEnergyAssessment h aid payload s =
              (Err (''Failed to update the energy assessment: '' @ thrown), s))
       \<and> fst (updateEnergyAssessment h aid payload s) \<noteq>
            Err ''Missing or invalid fields in the payload.''"
proof -
  from assms(1) have aid: "aid \<noteq> []" and got: "storage_get s aid = Some prior"
    by (auto simp: getEnergyAssessment_def split: if_splits option.splits)
  from keyed_by_id_get [OF assms(2) got] have key: "id' prior = aid" .
  have merged: "prior\<lparr>address := address payload,
                  efficiencyRating := efficiencyRating payload,
                  recommendations := recommendations payload,
                  costSavings := costSavings payload,
                  updatedAt := Some (ic_time h)\<rparr> = merge_policy prior payload (ic_time h)"
    by (simp add: merge_policy_def)
  have mid: "id' (merge_policy prior payload (ic_time h)) = aid"
    by (simp add: merge_policy_def key)
  have upd: "updateEnergyAssessment h aid payload s =
      (case insert_throws h aid (merge_policy prior payload (ic_time h)) of
         Some thrown \<Rightarrow> (Err (''Failed to update the energy assessment: '' @ thrown), s)
       | None \<Rightarrow> (Ok (merge_policy prior payload (ic_time h)),
                   storage_put aid (merge_policy prior payload (ic_time h)) s))"
    using aid got key
    by (simp add: updateEnergyAssessment_def storage_insert_def Let_def merged mid
          split: option.splits)
  from aid show ?thesis
    by (auto simp: upd getEnergyAssessment_def storage_get_put split: option.splits)
qed

theorem update_does_not_validate_witness:
  "getEnergyAssessment uuid0 store0 = Ok assessment0
   \<and> keyed_by_id store0
   \<and> address payload_bad = [] \<and> efficiencyRating payload_bad \<le> 0 \<and> costSavings payload_bad \<le> 0
   \<and> insert_throws host1 uuid0 (merge_policy assessment0 payload_bad (ic_time host1)) = None
   \<and> updateEnergyAssessment host1 uuid0 payload_bad store0 =
       (Ok (merge_policy assessment0 payload_bad (ic_time host1)),
        storage_put uuid0 (merge_policy assessment0 payload_bad (ic_time host1)) store0)
   \<and> getEnergyAssessment uuid0
        (storage_put uuid0 (merge_policy assessment0 payload_bad (ic_time host1)) store0) =
       Ok (merge_policy assessment0 payload_bad (ic_time host1))"
proof -
  have nothrow:
    "insert_throws host1 uuid0 (merge_policy assessment0 payload_bad (ic_time host1)) = None"
    by (simp add: host1_def)
  have bad: "address payload_bad = [] \<and> efficiencyRating payload_bad \<le> 0
             \<and> costSavings payload_bad \<le> 0"
    by (simp add: payload_bad_def)
  from update_does_not_validate [OF get_assessment0 store0_keyed, of host1 payload_bad]
    get_assessment0 store0_keyed nothrow bad
  show ?thesis by blast
qed

subsection \<open>Usage history\<close>

lemma add_returns:
  assumes "aid \<noteq> []" and "storage_get s aid = Some prior"
    and "addEnergyUsage h aid d c s = Inr (Ok pushed, s')"
  shows "pushed = prior\<lparr>energyUsageHistory :=
                     energyUsageHistory prior @ [\<lparr>date = d, consumption = c\<rparr>]\<rparr>"
    and "s' = storage_put aid pushed s"
  using assms
  by (auto simp: addEnergyUsage_def storage_insert_def Let_def split: option.splits)

lemma add_succeeds:
  assumes "aid \<noteq> []" and "storage_get s aid = Some prior"
    and "\<forall>v. insert_throws h aid v = None"
  shows "\<exists>pushed s'. addEnergyUsage h aid d c s = Inr (Ok pushed, s')"
  using assms
  by (simp add: addEnergyUsage_def storage_insert_def Let_def)

text \<open>
  C10. For an existing record, a record that \<open>addEnergyUsage\<close> returns is the one it
  stores under the id, and it is the prior record with one reading more in its history:
  the nine other fields, \<open>updatedAt\<close> among them, are those of the prior record, and
  the records under other ids are as before. The call returns a record when \<open>insert\<close>
  does not throw.
\<close>

theorem add_changes_history_only:
  assumes "getEnergyAssessment aid s = Ok prior"
  shows "(\<forall>pushed s'. addEnergyUsage h aid d c s = Inr (Ok pushed, s') \<longrightarrow>
            getEnergyAssessment aid s' = Ok pushed
          \<and> pushed = prior\<lparr>energyUsageHistory := energyUsageHistory pushed\<rparr>
          \<and> id' pushed = id' prior
          \<and> homeOwner pushed = homeOwner prior
          \<and> address pushed = address prior
          \<and> assessmentDate pushed = assessmentDate prior
          \<and> efficiencyRating pushed = efficiencyRating prior
          \<and> recommendations pushed = recommendations prior
          \<and> costSavings pushed = costSavings prior
          \<and> createdAt pushed = createdAt prior
          \<and> updatedAt pushed = updatedAt prior
          \<and> (\<forall>k. k \<noteq> aid \<longrightarrow> storage_get s' k = storage_get s k))
       \<and> ((\<forall>v. insert_throws h aid v = None) \<longrightarrow>
            (\<exists>pushed s'. addEnergyUsage h aid d c s = Inr (Ok pushed, s')))"
proof -
  from assms have aid: "aid \<noteq> []" and got: "storage_get s aid = Some prior"
    by (auto simp: getEnergyAssessment_def split: if_splits option.splits)
  show ?thesis
  proof (intro conjI allI impI)
    assume "\<forall>v. insert_throws h aid v = None"
    with aid got show "\<exists>pushed s'. addEnergyUsage h aid d c s = Inr (Ok pushed, s')"
      by (rule add_succeeds)
  next
    fix pushed s'
    assume ret: "addEnergyUsage h aid d c s = Inr (Ok pushed, s')"
    note r = add_returns [OF aid got ret]
    show "getEnergyAssessment aid s' = Ok pushed"
      using aid by (simp add: r(2) getEnergyAssessment_def storage_get_put)
    show "pushed = prior\<lparr>energyUsageHistory := energyUsageHistory pushed\<rparr>"
      by (subst (1) r(1)) (simp add: r(1))
    show "id' pushed = id' prior" by (simp add: r(1))
    show "homeOwner pushed = homeOwner prior" by (simp add: r(1))
    show "address pushed = address prior" by (simp add: r(1))
    show "assessmentDate pushed = assessmentDate prior" by (simp add: r(1))
    show "efficiencyRating pushed = efficiencyRating prior" by (simp add: r(1))
    show "recommendations pushed = recommendations prior" by (simp add: r(1))
    show "costSavings pushed = costSavings prior" by (simp add: r(1))
    show "createdAt pushed = createdAt prior" by (simp add: r(1))
    show "updatedAt pushed = updatedAt prior" by (simp add: r(1))
    show "storage_get s' k = storage_get s k" if "k \<noteq> aid" for k
      using that by (simp add: r(2) storage_get_put)
  qed
qed

theorem add_changes_history_only_witness:
  "getEnergyAssessment uuid0 store0 = Ok assessment0
   \<and> (\<forall>v. insert_throws host1 uuid0 v = None)
   \<and> addEnergyUsage host1 uuid0 100 30 store0 =
       Inr (Ok (assessment0\<lparr>energyUsageHistory := [\<lparr>date = 100, consumption = 30\<rparr>]\<rparr>),
            [(uuid0, assessment0\<lparr>energyUsageHistory := [\<lparr>date = 100, consumption = 30\<rparr>]\<rparr>)])
   \<and> getEnergyAssessment uuid0
        [(uuid0, assessment0\<lparr>energyUsageHistory := [\<lparr>date = 100, consumption = 30\<rparr>]\<rparr>)] =
       Ok (assessment0\<lparr>energyUsageHistory := [\<lparr>date = 100, consumption = 30\<rparr>]\<rparr>)
   \<and> updatedAt (assessment0\<lparr>energyUsageHistory := [\<lparr>date = 100, consumption = 30\<rparr>]\<rparr>) =
       updatedAt assessment0"
proof -
  have nothrow: "\<forall>v. insert_throws host1 uuid0 v = None"
    by (simp add: host1_def)
  from add_changes_history_only [OF get_assessment0, of host1 100 30]
    get_assessment0 nothrow add_reading0
  show ?thesis by blast
qed

text \<open>
  C5, as the code has it. For an existing record, \<open>calculateTotalConsumption\<close> returns
  what results from adding the \<open>consumption\<close> values of its usage history to 0 one
  after the other in the order of the history, every addition being the addition of
  doubles, with its rounding. This is the sum of the \<open>consumption\<close> values whenever no
  addition rounds, and it is 0 for an empty history.
\<close>

theorem total_consumption_double_sum:
  assumes "getEnergyAssessment aid s = Ok a"
  shows "calculateTotalConsumption aid s =
           Ok (foldl double_add (Finite 0) (map consumption (energyUsageHistory a)))
       \<and> (no_rounding 0 (map consumption (energyUsageHistory a)) \<longrightarrow>
            calculateTotalConsumption aid s =
              Ok (Finite (sum_list (map consumption (energyUsageHistory a)))))
       \<and> (energyUsageHistory a = [] \<longrightarrow> calculateTotalConsumption aid s = Ok (Finite 0))"
proof -
  from assms have aid: "aid \<noteq> []" and got: "storage_get s aid = Some a"
    by (auto simp: getEnergyAssessment_def split: if_splits option.splits)
  have fold: "calculateTotalConsumption aid s =
      Ok (foldl double_add (Finite 0) (map consumption (energyUsageHistory a)))"
    using aid got by (simp add: calculateTotalConsumption_def foldl_map)
  have "foldl double_add (Finite 0) (map consumption (energyUsageHistory a)) =
      Finite (sum_list (map consumption (energyUsageHistory a)))"
    if "no_rounding 0 (map consumption (energyUsageHistory a))"
    using foldl_double_add_exact [OF that] by simp
  with fold show ?thesis
    by auto
qed

theorem total_consumption_double_sum_witness:
  "getEnergyAssessment uuid1 store1 = Ok assessment1
   \<and> no_rounding 0 (map consumption (energyUsageHistory assessment1))
   \<and> calculateTotalConsumption uuid1 store1 = Ok (Finite 40)
   \<and> getEnergyAssessment uuid0 store0 = Ok assessment0
   \<and> energyUsageHistory assessment0 = []
   \<and> calculateTotalConsumption uuid0 store0 = Ok (Finite 0)"
proof -
  have exact: "no_rounding 0 (map consumption (energyUsageHistory assessment1))"
    by (simp add: assessment1_def round_double_small)
  have total: "sum_list (map consumption (energyUsageHistory assessment1)) = 40"
    by (simp add: assessment1_def)
  have empty: "energyUsageHistory assessment0 = []"
    by (simp add: assessment0_def)
  from total_consumption_double_sum [OF get_assessment1, THEN conjunct2, THEN conjunct1]
    exact total
  have full: "calculateTotalConsumption uuid1 store1 = Ok (Finite 40)"
    by simp
  from total_consumption_double_sum [OF get_assessment0, THEN conjunct2, THEN conjunct2]
    empty
  have none: "calculateTotalConsumption uuid0 store0 = Ok (Finite 0)"
    by simp
  from get_assessment1 get_assessment0 exact empty full none
  show ?thesis by simp
qed

text \<open>
  The claim C5 as stated asks for the sum of the consumption values. For the history
  with the readings \<open>2 ^ 53\<close> and 1 the sum is \<open>2 ^ 53 + 1\<close>, which is not a double, and
  the result is \<open>2 ^ 53\<close>.
\<close>

theorem total_consumption_counterexample:
  "getEnergyAssessment uuid0 store_big = Ok assessment_big
   \<and> sum_list (map consumption (energyUsageHistory assessment_big)) = 9007199254740993
   \<and> calculateTotalConsumption uuid0 store_big = Ok (Finite 9007199254740992)
   \<and> calculateTotalConsumption uuid0 store_big \<noteq>
       Ok (Finite (sum_list (map consumption (energyUsageHistory assessment_big))))"
proof -
  have "calculateTotalConsumption uuid0 store_big = Ok (Finite 9007199254740992)"
    by (simp add: calculateTotalConsumption_def storage_get_def store_big_def uuid0_def
          assessment_big_def double_add_def round_double_small round_double_tie)
  moreover have "sum_list (map consumption (energyUsageHistory assessment_big)) = 9007199254740993"
    by (simp add: assessment_big_def)
  ultimately show ?thesis
    using get_assessment_big by simp
qed

text \<open>
  C6. For an existing record and a sequence of \<open>addEnergyUsage\<close> calls on its id that
  all return a record, \<open>getEnergyUsageHistory\<close> then returns the history the record had
  before, followed by the readings of the calls in call order: every call appends its
  reading at the end and leaves the earlier ones. All calls return a record when
  \<open>insert\<close> does not throw.
\<close>

theorem usage_history_in_call_order:
  assumes "getEnergyAssessment aid s = Ok prior"
  shows "(\<forall>s'. addEnergyUsage_calls aid calls s = Some s' \<longrightarrow>
            getEnergyUsageHistory aid s' = Ok (energyUsageHistory prior @ map reading calls))
       \<and> ((\<forall>call \<in> set calls. \<forall>v. insert_throws (fst call) aid v = None) \<longrightarrow>
            (\<exists>s'. addEnergyUsage_calls aid calls s = Some s'))"
proof -
  from assms have aid: "aid \<noteq> []" and got: "storage_get s aid = Some prior"
    by (auto simp: getEnergyAssessment_def split: if_splits option.splits)
  have order: "getEnergyUsageHistory aid s' = Ok (energyUsageHistory prior @ map reading calls)"
    if "storage_get s aid = Some prior" "addEnergyUsage_calls aid calls s = Some s'"
    for s s' prior
    using that
  proof (induction calls arbitrary: s prior)
    case Nil
    with aid show ?case
      by (simp add: getEnergyUsageHistory_def)
  next
    case (Cons call calls)
    from Cons.prems(2) obtain pushed s1
      where ret: "addEnergyUsage (fst call) aid (fst (snd call)) (snd (snd call)) s
                    = Inr (Ok pushed, s1)"
        and rest: "addEnergyUsage_calls aid calls s1 = Some s'"
      by (auto split: sum.splits prod.splits Result.splits)
    note r = add_returns [OF aid Cons.prems(1) ret]
    have "storage_get s1 aid = Some pushed"
      by (simp add: r(2) storage_get_put)
    from Cons.IH [OF this rest] show ?case
      by (simp add: r(1) reading_def)
  qed
  have total: "\<exists>s'. addEnergyUsage_calls aid calls s = Some s'"
    if "storage_get s aid = Some prior"
      "\<forall>call \<in> set calls. \<forall>v. insert_throws (fst call) aid v = None"
    for s prior
    using that
  proof (induction calls arbitrary: s prior)
    case Nil
    show ?case by simp
  next
    case (Cons call calls)
    from Cons.prems(2) have "\<forall>v. insert_throws (fst call) aid v = None"
      by simp
    from add_succeeds [OF aid Cons.prems(1) this]
    obtain pushed s1
      where ret: "addEnergyUsage (fst call) aid (fst (snd call)) (snd (snd call)) s
                    = Inr (Ok pushed, s1)"
      by blast
    note r = add_returns [OF aid Cons.prems(1) ret]
    have "storage_get s1 aid = Some pushed"
      by (simp add: r(2) storage_get_put)
    from Cons.IH [OF this] Cons.prems(2) ret show ?case
      by simp
  qed
  from order [OF got] total [OF got] show ?thesis
    by blast
qed

theorem usage_history_in_call_order_witness:
  "getEnergyAssessment uuid0 store0 = Ok assessment0
   \<and> (\<forall>v. insert_throws host1 uuid0 v = None)
   \<and> map fst calls0 = [host1, host1]
   \<and> addEnergyUsage_calls uuid0 calls0 store0 =
       Some [(uuid0, assessment0\<lparr>energyUsageHistory :=
                [\<lparr>date = 100, consumption = 30\<rparr>, \<lparr>date = 200, consumption = 10\<rparr>]\<rparr>)]
   \<and> getEnergyUsageHistory uuid0
        [(uuid0, assessment0\<lparr>energyUsageHistory :=
                [\<lparr>date = 100, consumption = 30\<rparr>, \<lparr>date = 200, consumption = 10\<rparr>]\<rparr>)] =
       Ok [\<lparr>date = 100, consumption = 30\<rparr>, \<lparr>date = 200, consumption = 10\<rparr>]"
proof -
  have nothrow: "\<forall>call \<in> set calls0. \<forall>v. insert_throws (fst call) uuid0 v = None"
    by (simp add: calls0_def host1_def)
  have readings: "energyUsageHistory assessment0 @ map reading calls0 =
      [\<lparr>date = 100, consumption = 30\<rparr>, \<lparr>date = 200, consumption = 10\<rparr>]"
    by (simp add: assessment0_def calls0_def reading_def)
  have hosts: "map fst calls0 = [host1, host1]"
    by (simp add: calls0_def)
  have host1_nothrow: "\<forall>v. insert_throws host1 uuid0 v = None"
    by (simp add: host1_def)
  from usage_history_in_call_order [OF get_assessment0, of calls0]
    get_assessment0 nothrow add_calls0 readings hosts host1_nothrow
  show ?thesis by simp
qed

subsection \<open>The threshold query\<close>

text \<open>
  C4. For a threshold \<open>t > 0\<close>, \<open>getHighEfficiencyAssessments\<close> returns the records that
  \<open>getAllEnergyAssessments\<close> lists, in the same order, restricted to those with
  \<open>efficiencyRating \<ge> t\<close>; in a store with ascending keys these are exactly the
  records that some id retrieves and whose rating is at least \<open>t\<close>. For \<open>t \<le> 0\<close> the
  result is the error of the threshold validation, whatever the store holds.
\<close>

theorem high_efficiency_filter:
  "(0 < t \<longrightarrow>
      getHighEfficiencyAssessments t s =
        Ok (filter (\<lambda>a. t \<le> efficiencyRating a) (storage_values s))
    \<and> getAllEnergyAssessments s = Ok (storage_values s)
    \<and> (key_order s \<longrightarrow>
         (\<forall>a. a \<in> set (filter (\<lambda>a. t \<le> efficiencyRating a) (storage_values s))
               \<longleftrightarrow> t \<le> efficiencyRating a \<and> (\<exists>k. storage_get s k = Some a))))
   \<and> (t \<le> 0 \<longrightarrow>
        (\<forall>s'. getHighEfficiencyAssessments t s' =
                Err ''Invalid threshold value. Threshold must be greater than 0.''))"
proof (intro conjI impI allI)
  assume "0 < t"
  then show "getHighEfficiencyAssessments t s =
      Ok (filter (\<lambda>a. t \<le> efficiencyRating a) (storage_values s))"
    by (simp add: getHighEfficiencyAssessments_def)
next
  show "getAllEnergyAssessments s = Ok (storage_values s)"
    by (simp add: getAllEnergyAssessments_def)
next
  fix a
  assume "key_order s"
  from storage_values_get [OF this, of a]
  show "a \<in> set (filter (\<lambda>a. t \<le> efficiencyRating a) (storage_values s))
          \<longleftrightarrow> t \<le> efficiencyRating a \<and> (\<exists>k. storage_get s k = Some a)"
    by auto
next
  fix s'
  assume "t \<le> 0"
  then show "getHighEfficiencyAssessments t s' =
      Err ''Invalid threshold value. Threshold must be greater than 0.''"
    by (simp add: getHighEfficiencyAssessments_def)
qed

theorem high_efficiency_filter_witness:
  "(0::real) < 8 \<and> key_order store1
   \<and> getHighEfficiencyAssessments 8 store1 = Ok [assessment1]
   \<and> getAllEnergyAssessments store1 = Ok [assessment0, assessment1]
   \<and> 8 \<le> efficiencyRating assessment1 \<and> storage_get store1 uuid1 = Some assessment1
   \<and> (0::real) \<le> 0
   \<and> getHighEfficiencyAssessments 0 store1 =
       Err ''Invalid threshold value. Threshold must be greater than 0.''"
proof -
  have vals: "storage_values store1 = [assessment0, assessment1]"
    by (simp add: storage_values_def store1_def)
  have flt: "filter (\<lambda>a. 8 \<le> efficiencyRating a) [assessment0, assessment1] = [assessment1]"
    by (simp add: assessment0_def assessment1_def)
  have got: "storage_get store1 uuid1 = Some assessment1"
    by (simp add: storage_get_def store1_def uuid0_def uuid1_def)
  have rating: "8 \<le> efficiencyRating assessment1"
    by (simp add: assessment1_def)
  from high_efficiency_filter [of 8 store1] high_efficiency_filter [of 0 store1]
    store1_order vals flt got rating
  show ?thesis by simp
qed

subsection \<open>Deletion\<close>

text \<open>
  C7, as the code has it. For a non-empty id with an existing record,
  \<open>deleteEnergyAssessment\<close> returns the record stored under the id and removes it, so
  that the id retrieves nothing, the other ids retrieve what they did, and a following
  \<open>getEnergyAssessment\<close> returns the not-found error. For a non-empty id with no record
  it returns the not-found error and leaves the store. For the empty id it returns the
  error \<open>ID is required.\<close> and leaves the store.
\<close>

theorem delete_then_get:
  "(aid \<noteq> [] \<longrightarrow> storage_get s aid = Some existing \<longrightarrow>
      deleteEnergyAssessment aid s = (Ok existing, storage_remove aid s)
    \<and> storage_get (storage_remove aid s) aid = None
    \<and> (\<forall>k. k \<noteq> aid \<longrightarrow> storage_get (storage_remove aid s) k = storage_get s k)
    \<and> getEnergyAssessment aid (storage_remove aid s) = Err (not_found aid))
   \<and> (aid \<noteq> [] \<longrightarrow> storage_get s aid = None \<longrightarrow>
        deleteEnergyAssessment aid s = (Err (not_found aid), s))
   \<and> (aid = [] \<longrightarrow> deleteEnergyAssessment aid s = (Err ''ID is required.'', s))"
  by (simp add: deleteEnergyAssessment_def getEnergyAssessment_def storage_get_remove)

theorem delete_then_get_witness:
  "uuid0 \<noteq> [] \<and> storage_get store1 uuid0 = Some assessment0
   \<and> deleteEnergyAssessment uuid0 store1 = (Ok assessment0, [(uuid1, assessment1)])
   \<and> getEnergyAssessment uuid0 [(uuid1, assessment1)] = Err (not_found uuid0)
   \<and> uuid1 \<noteq> [] \<and> storage_get store0 uuid1 = None
   \<and> deleteEnergyAssessment uuid1 store0 = (Err (not_found uuid1), store0)
   \<and> deleteEnergyAssessment [] store0 = (Err ''ID is required.'', store0)"
proof -
  have ne: "uuid0 \<noteq> []" "uuid1 \<noteq> []"
    by (simp_all add: uuid0_def uuid1_def)
  have got: "storage_get store1 uuid0 = Some assessment0"
    by (simp add: storage_get_def store1_def)
  have rem: "storage_remove uuid0 store1 = [(uuid1, assessment1)]"
    by (simp add: storage_remove_def store1_def uuid0_def uuid1_def)
  have none: "storage_get store0 uuid1 = None"
    by (simp add: storage_get_def store0_def uuid0_def uuid1_def)
  from delete_then_get [of uuid0 store1 assessment0] delete_then_get [of uuid1 store0]
    delete_then_get [of "[]" store0] ne got rem none
  show ?thesis by simp
qed

text \<open>
  The claim C7 as stated asks for the not-found error for every id with no record. The
  empty id has no record in the empty store, and the result is another error.
\<close>

theorem delete_empty_id_counterexample:
  "storage_get [] [] = None
   \<and> deleteEnergyAssessment [] [] = (Err ''ID is required.'', [])
   \<and> fst (deleteEnergyAssessment [] []) \<noteq> Err (not_found [])"
  by (simp add: deleteEnergyAssessment_def storage_get_def not_found_def)

end
